theory Spec2Isabelle
  imports Main "HOL-Library.Word"
begin

unbundle bit_operations_syntax

section \<open>The policy bitset of \<^verbatim>\<open>task_manager.h\<close>\<close>

text \<open>
  \<^verbatim>\<open>enum tm_settings { KILL_ON_EMPTY = 1, IN_ORDER = 1 << 1 }\<close> is an unscoped
  enumeration: in every expression of the header its values are promoted to \<^verbatim>\<open>int\<close>,
  and \<^verbatim>\<open>get\<close> is documented to take "the setting(s)", that is a mask that may combine
  both enumerators. A value of the enumeration is therefore modelled as the 32-bit
  \<^verbatim>\<open>int\<close> it is promoted to.
\<close>

type_synonym tm_settings = "32 word"

definition KILL_ON_EMPTY :: tm_settings where
  "KILL_ON_EMPTY = 1"

definition IN_ORDER :: tm_settings where
  "IN_ORDER = push_bit 1 1"

text \<open>
  The macros, applied to a \<^verbatim>\<open>uint16_t\<close> first argument \<open>x\<close> and an \<^verbatim>\<open>int\<close>
  second argument \<open>y\<close>. The bitwise operators promote \<open>x\<close> to \<^verbatim>\<open>int\<close> (zero
  extension, \<open>ucast\<close>); the compound assignments convert the \<^verbatim>\<open>int\<close> result back to
  \<^verbatim>\<open>uint16_t\<close> (truncation, \<open>ucast\<close> again).
  \<^verbatim>\<open>
  #define EVAL(x, y) ((x & y) == (y))
  #define SET_ON(x, y) x |= y
  #define SET_OFF(x, y) x &= ~y
  \<close>
\<close>

definition EVAL :: "16 word \<Rightarrow> 32 word \<Rightarrow> bool" where
  "EVAL x y \<longleftrightarrow> (ucast x AND y) = y"

definition SET_ON :: "16 word \<Rightarrow> 32 word \<Rightarrow> 16 word" where
  "SET_ON x y = ucast ((ucast x :: 32 word) OR y)"

definition SET_OFF :: "16 word \<Rightarrow> 32 word \<Rightarrow> 16 word" where
  "SET_OFF x y = ucast ((ucast x :: 32 word) AND NOT y)"

subsection \<open>Tasks\<close>

text \<open>
  \<^verbatim>\<open>enum task_settings { AFTER = 0, POOL = 1, ID = -1 }\<close> is used only as the key type
  of a task's settings map. \<^verbatim>\<open>struct retype { std::string ret; int err; }\<close> is what a
  task function returns.
\<close>

datatype task_settings = AFTER | POOL | ID

record retype =
  ret :: string
  err :: int

text \<open>
  \<^verbatim>\<open>
  struct task {
    std::string name;
    std::function<retype()> func;
    std::unordered_map<enum task_settings, std::string> settings{
        {AFTER, ""},
        {POOL, name},
    };
    int id = -1;
  };
  \<close>
  The member \<^verbatim>\<open>id\<close> is the field \<open>task_id\<close> (\<open>id\<close> is the identity function of
  HOL). The bodies of task functions are outside the scheduler: \<open>func\<close> is the value
  the call produces.
\<close>

record task =
  name :: string
  func :: "unit \<Rightarrow> retype"
  settings :: "task_settings \<rightharpoonup> string"
  task_id :: int

text \<open>
  \<^verbatim>\<open>task\<close> has no constructor: it is an aggregate, built as \<^verbatim>\<open>task{name, func}\<close>,
  \<^verbatim>\<open>task{name, func, settings}\<close> or \<^verbatim>\<open>task{name, func, settings, id}\<close>. A member
  the initialiser list leaves out takes its default member initialiser; a member it
  supplies takes the supplied value whole, so an explicit settings map replaces both
  default entries. An omitted member is \<open>None\<close> here.
\<close>

definition make_task ::
  "string \<Rightarrow> (unit \<Rightarrow> retype) \<Rightarrow> (task_settings \<rightharpoonup> string) option \<Rightarrow> int option \<Rightarrow> task" where
  "make_task nm f st i =
     \<lparr>name = nm, func = f,
      settings = (case st of None \<Rightarrow> [AFTER \<mapsto> [], POOL \<mapsto> nm] | Some m \<Rightarrow> m),
      task_id = (case i of None \<Rightarrow> - 1 | Some k \<Rightarrow> k)\<rparr>"

subsection \<open>The task manager's state\<close>

text \<open>
  The hooks are five assignable \<^verbatim>\<open>std::function\<close> members that return nothing; what
  the scheduler decides is which hook it calls and with which arguments. A call is
  recorded as a value of \<open>hook_call\<close>, in the order the calls are made.
\<close>

datatype hook_call =
    Task_start task int
  | Task_stop task int
  | Task_fail task int int
  | Worker_start int
  | Worker_stop int

text \<open>
  The data members of \<^verbatim>\<open>class task_manager\<close>. A member \<^verbatim>\<open>x_\<close> of the class is the
  field \<open>m_x\<close> (a name cannot end in an underscore in a record update); the threads and
  mutexes carry no data. \<open>m_hook_calls\<close> is the record of hook calls made so far.
  The keys of a pool and the values of \<^verbatim>\<open>pool_ntIDs\<close> are declared \<^verbatim>\<open>int\<close>
  (\<^verbatim>\<open>std::unordered_map<int, std::string>\<close>, \<^verbatim>\<open>std::unordered_map<std::string, int>\<close>):
  they are 32-bit words, and \<open>sint\<close> reads the \<^verbatim>\<open>int\<close> such a word stands for.
\<close>

type_synonym c_int = "32 word"

record tm_state =
  m_queue :: "task list"
  m_done :: "string list"
  m_pools :: "string \<rightharpoonup> (c_int \<rightharpoonup> string)"
  m_pool_ntIDs :: "string \<rightharpoonup> c_int"
  m_is_paused :: bool
  m_stop :: bool
  m_settings :: "16 word"
  m_hook_calls :: "hook_call list"

text \<open>
  The default member initialiser
  \<^verbatim>\<open>uint16_t settings_ = 0 | (~KILL_ON_EMPTY | IN_ORDER);\<close>
  computed in \<^verbatim>\<open>int\<close> and converted to \<^verbatim>\<open>uint16_t\<close>.
\<close>

definition settings_init :: "16 word" where
  "settings_init = ucast ((0 :: 32 word) OR (NOT KILL_ON_EMPTY OR IN_ORDER))"

text \<open>
  A task manager as its default member initialisers leave it
  (\<^verbatim>\<open>is_paused_ = true\<close>, \<^verbatim>\<open>stop_ = false\<close>, empty containers). The header
  declares the constructor without a body; the initial values are the ones the class
  itself gives its members.
\<close>

definition task_manager_init :: tm_state where
  "task_manager_init =
     \<lparr>m_queue = [], m_done = [], m_pools = Map.empty, m_pool_ntIDs = Map.empty,
      m_is_paused = True, m_stop = False, m_settings = settings_init, m_hook_calls = []\<rparr>"

text \<open>
  \<^verbatim>\<open>
  void set(tm_settings t, bool val) {
    GUARD(settings_lock_);
    if (val) SET_ON(settings_, t);
    else
      SET_OFF(settings_, ~t);
  }
  bool get(tm_settings mask) { return EVAL(settings_, mask); }
  \<close>
  The argument of \<^verbatim>\<open>SET_OFF\<close> in the source is \<^verbatim>\<open>~t\<close>, so the macro expands to
  \<^verbatim>\<open>settings_ &= ~~t\<close>. \<^verbatim>\<open>set\<close> is \<open>set_tm\<close> here (\<open>set\<close> is the set of
  elements of a list in HOL).
\<close>

definition set_tm :: "tm_state \<Rightarrow> tm_settings \<Rightarrow> bool \<Rightarrow> tm_state" where
  "set_tm s t val =
     (if val then s\<lparr>m_settings := SET_ON (m_settings s) t\<rparr>
      else s\<lparr>m_settings := SET_OFF (m_settings s) (NOT t)\<rparr>)"

definition get :: "tm_state \<Rightarrow> tm_settings \<Rightarrow> bool" where
  "get s msk \<longleftrightarrow> EVAL (m_settings s) msk"

section \<open>The scheduler operations the header only declares\<close>

text \<open>
  \<^verbatim>\<open>_run_worker\<close>, \<^verbatim>\<open>_pop_queue\<close>, \<^verbatim>\<open>clear_pool\<close>, \<^verbatim>\<open>pools\<close> and \<^verbatim>\<open>pool\<close> are
  declared in \<^verbatim>\<open>task_manager.h\<close> and defined nowhere in it. The definitions of this
  section follow the specification's description of them, on the data members above.
\<close>

text \<open>
  Modelled from the spec: how a task's two settings are read (the reading code is in
  the missing bodies). "\<open>dependency_name\<close> (optional; empty means no dependency)" and
  "\<open>target_pool\<close> (name of the pool that receives this task's result; defaults to the
  task's own name)" are the \<^verbatim>\<open>AFTER\<close> and \<^verbatim>\<open>POOL\<close> entries of the settings map. A
  task whose map holds no \<^verbatim>\<open>AFTER\<close> entry has no dependency; a task whose map holds no
  \<^verbatim>\<open>POOL\<close> entry deposits into the pool of its own name.
\<close>

definition dependency_name :: "task \<Rightarrow> string" where
  "dependency_name t = (case settings t AFTER of None \<Rightarrow> [] | Some d \<Rightarrow> d)"

definition target_pool :: "task \<Rightarrow> string" where
  "target_pool t = (case settings t POOL of None \<Rightarrow> name t | Some p \<Rightarrow> p)"

subsection \<open>Result store\<close>

text \<open>
  Modelled from the spec: the bodies of \<^verbatim>\<open>pools\<close> and \<^verbatim>\<open>pool\<close>. "\<open>pools()\<close> returns a
  fully materialized, point-in-time copy of every pool"; "\<open>pool(name)\<close> returns a copy
  of one pool, or an empty mapping if the name is unknown (not an error)".
\<close>

definition pools :: "tm_state \<Rightarrow> (string \<rightharpoonup> (c_int \<rightharpoonup> string))" where
  "pools s = m_pools s"

definition pool :: "tm_state \<Rightarrow> string \<Rightarrow> (c_int \<rightharpoonup> string)" where
  "pool s nm = (case m_pools s nm of None \<Rightarrow> Map.empty | Some m \<Rightarrow> m)"

text \<open>
  Modelled from the spec: the body of \<^verbatim>\<open>clear_pool\<close>. "\<open>clear_pool(name)\<close> atomically
  empties one pool's entries; unaffected pools and their counters are untouched; clearing
  an unknown pool name is a no-op", and clearing "resets nothing -- the next id continues
  from where it left off".
\<close>

definition clear_pool :: "string \<Rightarrow> tm_state \<Rightarrow> tm_state" where
  "clear_pool p s =
     (case m_pools s p of
        None \<Rightarrow> s
      | Some m \<Rightarrow> s\<lparr>m_pools := (m_pools s)(p \<mapsto> Map.empty)\<rparr>)"

subsection \<open>Worker: running one task and publishing its outcome\<close>

text \<open>
  Modelled from the spec: the slot allocation inside the missing body of
  \<^verbatim>\<open>_run_worker\<close>, on the declared member \<^verbatim>\<open>pool_ntIDs\<close> ("the next available task IDs
  for which pool"). "Slot ids are assigned per-pool, starting at 0 and incrementing by 1
  for each result deposited into that pool". A pool without a counter yet is a freshly
  created one. The counter is the \<^verbatim>\<open>int\<close> the header declares: incrementing it is
  addition on 32-bit words, which wraps from \<open>2\<^sup>3\<^sup>1 - 1\<close> to \<open>- 2\<^sup>3\<^sup>1\<close> where C++
  leaves the overflow undefined.
\<close>

definition next_slot :: "tm_state \<Rightarrow> string \<Rightarrow> c_int" where
  "next_slot s p = (case m_pool_ntIDs s p of None \<Rightarrow> 0 | Some n \<Rightarrow> n)"

definition alloc_slot :: "string \<Rightarrow> tm_state \<Rightarrow> c_int \<times> tm_state" where
  "alloc_slot p s =
     (let k = next_slot s p
      in (k, s\<lparr>m_pool_ntIDs := (m_pool_ntIDs s)(p \<mapsto> k + 1)\<rparr>))"

definition store_result :: "string \<Rightarrow> c_int \<Rightarrow> string \<Rightarrow> tm_state \<Rightarrow> tm_state" where
  "store_result p k r s = s\<lparr>m_pools := (m_pools s)(p \<mapsto> (pool s p)(k \<mapsto> r))\<rparr>"

text \<open>
  Modelled from the spec: the publish step of the missing \<^verbatim>\<open>_run_worker\<close>. "Append the
  task's name to the done set, allocate the next slot id for its target pool, and store
  the result string at that slot". The slot that was allocated is returned with the state.
\<close>

definition publish :: "task \<Rightarrow> string \<Rightarrow> tm_state \<Rightarrow> c_int \<times> tm_state" where
  "publish t r s =
     (let s1 = s\<lparr>m_done := m_done s @ [name t]\<rparr>;
          (k, s2) = alloc_slot (target_pool t) s1
      in (k, store_result (target_pool t) k r s2))"

definition call_hook :: "hook_call \<Rightarrow> tm_state \<Rightarrow> tm_state" where
  "call_hook h s = s\<lparr>m_hook_calls := m_hook_calls s @ [h]\<rparr>"

text \<open>
  Modelled from the spec: what the missing \<^verbatim>\<open>_run_worker\<close> does with a task it has
  popped, for the worker \<open>wid\<close>. "Invoke the task-start hook, then execute the task's
  function"; "on completion, inspect the error code: if non-zero, invoke the task-fail
  hook with the task, worker id, and error code; otherwise invoke the task-stop hook";
  "in both outcomes" publish.
\<close>

definition run_task :: "int \<Rightarrow> task \<Rightarrow> tm_state \<Rightarrow> c_int \<times> tm_state" where
  "run_task wid t s =
     (let s1 = call_hook (Task_start t wid) s;
          r = func t ();
          s2 = (if err r \<noteq> 0 then call_hook (Task_fail t wid (err r)) s1
                else call_hook (Task_stop t wid) s1)
      in publish t (ret r) s2)"

text \<open>
  A history of the result store: tasks run by workers, interleaved with calls of
  \<^verbatim>\<open>clear_pool\<close>. \<open>run_ops\<close> returns, for each task run, the pool and the slot its
  result went to, in order.
\<close>

datatype store_op = Run_task int task | Clear_pool string

fun run_ops :: "store_op list \<Rightarrow> tm_state \<Rightarrow> (string \<times> c_int) list \<times> tm_state" where
  "run_ops [] s = ([], s)"
| "run_ops (Run_task wid t # ops) s =
     (let (k, s1) = run_task wid t s;
          (ks, s2) = run_ops ops s1
      in ((target_pool t, k) # ks, s2))"
| "run_ops (Clear_pool p # ops) s = run_ops ops (clear_pool p s)"

definition slots_in :: "string \<Rightarrow> (string \<times> c_int) list \<Rightarrow> c_int list" where
  "slots_in p ks = map snd (filter (\<lambda>a. fst a = p) ks)"

text \<open>
  What a history does to one pool \<open>p\<close>, read off the history alone: the result strings
  deposited into \<open>p\<close>, in order, and how many of them were deposited before the last
  \<^verbatim>\<open>clear_pool(p)\<close> (none when \<open>p\<close> is never cleared).
\<close>

fun deposited :: "string \<Rightarrow> store_op list \<Rightarrow> string list" where
  "deposited p [] = []"
| "deposited p (Run_task wid t # ops) =
     (if target_pool t = p then ret (func t ()) # deposited p ops else deposited p ops)"
| "deposited p (Clear_pool q # ops) = deposited p ops"

fun cleared :: "string \<Rightarrow> store_op list \<Rightarrow> nat" where
  "cleared p [] = 0"
| "cleared p (Run_task wid t # ops) =
     (if target_pool t = p \<and> Clear_pool p \<in> set ops then Suc (cleared p ops)
      else cleared p ops)"
| "cleared p (Clear_pool q # ops) = cleared p ops"

subsection \<open>Dequeuing an eligible task\<close>

text \<open>
  Modelled from the spec: the body of \<^verbatim>\<open>_pop_queue\<close> (\<open>pop_eligible\<close> in the
  specification). "Inspect the front of the queue. If its \<open>dependency_name\<close> is empty, or
  that name already appears in the done set, it is eligible: remove and return it.
  Otherwise [...] default (\<open>IN_ORDER\<close> unset): move the ineligible task to the back of
  the queue and re-inspect the new front; \<open>IN_ORDER\<close> set: do not skip it; the resolver
  [...] reports no eligible task yet". The rotating scan need not end ("indefinite
  rotation"), so the function is partial: \<open>None\<close> is a scan that never returns. On an
  empty queue there is no front to inspect.
\<close>

datatype pop_result = Popped task | Queue_empty | Not_yet

definition eligible :: "tm_state \<Rightarrow> task \<Rightarrow> bool" where
  "eligible s t \<longleftrightarrow> dependency_name t = [] \<or> dependency_name t \<in> set (m_done s)"

partial_function (option) pop_queue :: "tm_state \<Rightarrow> (pop_result \<times> tm_state) option" where
  "pop_queue s =
     (case m_queue s of
        [] \<Rightarrow> Some (Queue_empty, s)
      | t # q \<Rightarrow>
          if eligible s t then Some (Popped t, s\<lparr>m_queue := q\<rparr>)
          else if get s IN_ORDER then Some (Not_yet, s)
          else pop_queue (s\<lparr>m_queue := q @ [t]\<rparr>))"

section \<open>Concrete tasks and states\<close>

text \<open>
  A task that fails with error code 7 and leaves its settings to their defaults, two
  succeeding tasks whose default pools are \<open>p\<close> and \<open>q\<close>, and a task named \<open>B\<close> that
  runs after \<open>p\<close>, deposits into the pool \<open>p\<close> and carries an id of its own.
\<close>

definition failing_task :: task where
  "failing_task = make_task ''A'' (\<lambda>u. \<lparr>ret = ''partial'', err = 7\<rparr>) None None"

definition task_p :: task where
  "task_p = make_task ''p'' (\<lambda>u. \<lparr>ret = ''x'', err = 0\<rparr>) None None"

definition task_q :: task where
  "task_q = make_task ''q'' (\<lambda>u. \<lparr>ret = ''y'', err = 0\<rparr>) None None"

definition task_B :: task where
  "task_B = make_task ''B'' (\<lambda>u. \<lparr>ret = ''z'', err = 0\<rparr>)
              (Some [AFTER \<mapsto> ''p'', POOL \<mapsto> ''p'']) (Some 5)"

text \<open>
  The store after worker 0 ran \<open>task_p\<close> and worker 1 ran \<open>task_q\<close> on a fresh manager.
\<close>

definition two_pools :: tm_state where
  "two_pools = snd (run_ops [Run_task 0 task_p, Run_task 1 task_q] task_manager_init)"

text \<open>
  A history with deposits into two pools and a \<^verbatim>\<open>clear_pool\<close> between the deposits
  into \<open>p\<close>.
\<close>

definition history :: "store_op list" where
  "history = [Run_task 0 task_p, Run_task 1 task_q, Clear_pool ''p'', Run_task 0 task_B]"

text \<open>
  A history that deposits \<open>2\<^sup>3\<^sup>1\<close> results of \<open>task_p\<close> and then the result of
  \<open>task_B\<close> into the pool \<open>p\<close>.
\<close>

definition long_history :: "store_op list" where
  "long_history = replicate 2147483648 (Run_task 0 task_p) @ [Run_task 0 task_B]"

text \<open>
  A manager with \<open>task_B\<close> at the front of the queue, after \<open>p\<close> has finished.
\<close>

definition B_at_front :: tm_state where
  "B_at_front = task_manager_init\<lparr>m_queue := [task_B, task_q], m_done := [''p'']\<rparr>"

section \<open>Facts about the policy bitset\<close>

lemmas flag_defs = KILL_ON_EMPTY_def IN_ORDER_def

lemmas macro_defs = EVAL_def SET_ON_def SET_OFF_def

lemmas w32_eq_iff = bit_eq_iff [where ?'a = "32 word"]

lemma m_settings_init: "m_settings task_manager_init = 0xFFFE"
  by (simp add: task_manager_init_def settings_init_def flag_defs)

text \<open>What the two assignments of \<^verbatim>\<open>set\<close> do to \<^verbatim>\<open>settings_\<close>.\<close>

lemma SET_ON_eq: "SET_ON x t = x OR ucast t"
  unfolding SET_ON_def
  by (auto simp add: bit_eq_iff bit_or_iff bit_word_ucast_iff)

lemma SET_OFF_NOT: "SET_OFF x (NOT t) = x AND ucast t"
  unfolding SET_OFF_def
  by (simp add: bit_eq_iff bit_and_iff bit_word_ucast_iff bit_not_iff)

lemma m_settings_set_on: "m_settings (set_tm s t True) = m_settings s OR ucast t"
  by (simp add: set_tm_def SET_ON_eq)

lemma m_settings_set_off: "m_settings (set_tm s t False) = m_settings s AND ucast t"
  by (simp add: set_tm_def SET_OFF_NOT)

lemma set_on_adds:
  "bit (m_settings (set_tm s t True)) n \<longleftrightarrow> bit (m_settings s) n \<or> n < 16 \<and> bit t n"
  by (auto simp add: m_settings_set_on bit_or_iff bit_word_ucast_iff dest: bit_imp_le_length)

lemma set_off_keeps_only:
  "bit (m_settings (set_tm s t False)) n \<longleftrightarrow> bit (m_settings s) n \<and> bit t n"
  by (auto simp add: m_settings_set_off bit_and_iff bit_word_ucast_iff dest: bit_imp_le_length)

text \<open>Each flag is one bit of \<^verbatim>\<open>settings_\<close>.\<close>

lemma flag_bits:
  "bit KILL_ON_EMPTY n \<longleftrightarrow> n = 0" "bit IN_ORDER n \<longleftrightarrow> n = 1"
  by (auto simp add: KILL_ON_EMPTY_def IN_ORDER_def bit_1_iff bit_2_iff)

lemma get_KILL_ON_EMPTY: "get s KILL_ON_EMPTY \<longleftrightarrow> bit (m_settings s) 0"
proof
  assume "get s KILL_ON_EMPTY"
  then have "bit ((ucast (m_settings s) :: 32 word) AND 1) 0"
    by (simp add: get_def EVAL_def KILL_ON_EMPTY_def)
  then show "bit (m_settings s) 0"
    by (simp add: bit_and_iff bit_word_ucast_iff)
next
  assume "bit (m_settings s) 0"
  then have "(ucast (m_settings s) :: 32 word) AND 1 = 1"
    by (auto simp add: w32_eq_iff bit_and_iff bit_word_ucast_iff bit_1_iff)
  then show "get s KILL_ON_EMPTY"
    by (simp add: get_def EVAL_def KILL_ON_EMPTY_def)
qed

lemma get_IN_ORDER: "get s IN_ORDER \<longleftrightarrow> bit (m_settings s) 1"
proof
  assume "get s IN_ORDER"
  then have "bit ((ucast (m_settings s) :: 32 word) AND push_bit 1 1) 1"
    by (simp add: get_def EVAL_def IN_ORDER_def bit_2_iff)
  then show "bit (m_settings s) 1"
    by (simp add: bit_and_iff bit_word_ucast_iff)
next
  assume "bit (m_settings s) 1"
  then have "(ucast (m_settings s) :: 32 word) AND push_bit 1 1 = push_bit 1 1"
    by (auto simp add: w32_eq_iff bit_and_iff bit_word_ucast_iff bit_2_iff bit_1_iff)
  then show "get s IN_ORDER"
    by (simp add: get_def EVAL_def IN_ORDER_def)
qed

text \<open>
  Switching a flag on works as documented: the flag then reads true and the other flag
  keeps its value.
\<close>

lemma get_set_on_flag:
  "get (set_tm s KILL_ON_EMPTY True) KILL_ON_EMPTY" "get (set_tm s IN_ORDER True) IN_ORDER"
  by (simp_all add: get_KILL_ON_EMPTY get_IN_ORDER set_on_adds flag_bits)

lemma get_set_on_other:
  "get (set_tm s KILL_ON_EMPTY True) IN_ORDER \<longleftrightarrow> get s IN_ORDER"
  "get (set_tm s IN_ORDER True) KILL_ON_EMPTY \<longleftrightarrow> get s KILL_ON_EMPTY"
  by (simp_all add: get_KILL_ON_EMPTY get_IN_ORDER set_on_adds flag_bits)

text \<open>
  Switching a flag off does not: \<^verbatim>\<open>settings_ &= ~~t\<close> keeps the bits of \<open>t\<close> and clears
  every other bit, so the flag keeps the value it had and the other flag is cleared.
\<close>

lemma get_set_off_flag: "get (set_tm s t False) t \<longleftrightarrow> get s t"
proof -
  have "(ucast (m_settings s AND ucast t) :: 32 word) = ucast (m_settings s) AND t"
    by (auto simp add: w32_eq_iff bit_and_iff bit_word_ucast_iff)
  then show ?thesis
    by (simp add: get_def EVAL_def m_settings_set_off and.assoc)
qed

lemma get_set_off_other:
  "\<not> get (set_tm s KILL_ON_EMPTY False) IN_ORDER"
  "\<not> get (set_tm s IN_ORDER False) KILL_ON_EMPTY"
  by (simp_all add: get_KILL_ON_EMPTY get_IN_ORDER set_off_keeps_only flag_bits)

text \<open>
  C1. Claim: for each flag \<open>f\<close> and boolean \<open>v\<close>, from every settings state,
  \<^verbatim>\<open>set(f, v)\<close> followed by \<^verbatim>\<open>get(f)\<close> returns \<open>v\<close>. The code at the fresh manager
  with \<open>f = IN_ORDER\<close> and \<open>v = false\<close>: \<^verbatim>\<open>get(IN_ORDER)\<close> still returns true after
  \<^verbatim>\<open>set(IN_ORDER, false)\<close>.
\<close>

theorem set_false_leaves_flag_set:
  "get (set_tm task_manager_init IN_ORDER False) IN_ORDER = True"
  by (simp add: get_def set_tm_def macro_defs flag_defs m_settings_init)

text \<open>
  C2. Claim: \<^verbatim>\<open>set(f, v)\<close> leaves the value \<^verbatim>\<open>get\<close> reports for the other flag
  unchanged. The code at the fresh manager with \<open>f = KILL_ON_EMPTY\<close> and \<open>v = false\<close>:
  \<^verbatim>\<open>get(IN_ORDER)\<close> is true before the call and false after it.
\<close>

theorem set_false_clears_other_flag:
  "get task_manager_init IN_ORDER = True
   \<and> get (set_tm task_manager_init KILL_ON_EMPTY False) IN_ORDER = False"
  by (simp add: get_def set_tm_def macro_defs flag_defs m_settings_init)

text \<open>
  C3. Claim: on a freshly constructed task manager \<^verbatim>\<open>get(IN_ORDER)\<close> returns false.
  It does not.
\<close>

theorem fresh_IN_ORDER_not_unset:
  "get task_manager_init IN_ORDER \<noteq> False"
  by (simp add: get_def macro_defs flag_defs m_settings_init)

text \<open>
  C3, as the code has it: on a freshly constructed task manager, before any call to
  \<^verbatim>\<open>set\<close>, \<^verbatim>\<open>settings_\<close> is \<open>0xFFFE\<close> and \<^verbatim>\<open>get(IN_ORDER)\<close> returns true: the
  \<open>IN_ORDER\<close> policy is set by default.
\<close>

theorem fresh_IN_ORDER_set:
  "m_settings task_manager_init = 0xFFFE \<and> get task_manager_init IN_ORDER = True"
  by (simp add: get_def macro_defs flag_defs m_settings_init)

text \<open>
  C9. On a freshly constructed task manager, before any call to \<^verbatim>\<open>set\<close>, the
  \<open>KILL_ON_EMPTY\<close> policy is unset: \<^verbatim>\<open>get(KILL_ON_EMPTY)\<close> returns false.
\<close>

theorem fresh_KILL_ON_EMPTY_unset:
  "get task_manager_init KILL_ON_EMPTY = False"
  by (simp add: get_def macro_defs flag_defs m_settings_init)

text \<open>
  C10. \<^verbatim>\<open>get\<close> is conjunctive over mask bits: for every settings state and every two
  masks \<open>a\<close> and \<open>b\<close> (in particular the two flags), \<^verbatim>\<open>get\<close> of the combined mask
  \<open>a | b\<close> is true exactly when \<^verbatim>\<open>get(a)\<close> and \<^verbatim>\<open>get(b)\<close> are both true.
\<close>

theorem get_conjunctive:
  "get s (a OR b) \<longleftrightarrow> get s a \<and> get s b"
  unfolding get_def EVAL_def
  by (auto simp add: bit_eq_iff bit_and_iff bit_or_iff)

section \<open>Facts about task construction\<close>

text \<open>
  C8. Claim: every task constructed with a name and no explicitly supplied target pool
  has its own name as the \<open>POOL\<close> setting. A task constructed with a name and a settings
  map that gives only the dependency has no \<open>POOL\<close> entry at all.
\<close>

theorem explicit_settings_drop_target_pool:
  "settings (make_task ''B'' (\<lambda>u. \<lparr>ret = ''r'', err = 0\<rparr>) (Some [AFTER \<mapsto> ''A'']) None) POOL
     \<noteq> Some ''B''"
  by (simp add: make_task_def)

text \<open>
  C8, as the code has it: for every task constructed with a name and no explicitly
  supplied settings map, the \<open>POOL\<close> setting equals the task's own name.
\<close>

theorem default_settings_target_pool:
  "settings (make_task nm f None i) POOL = Some nm"
  by (simp add: make_task_def)

section \<open>Facts about the result store and the worker\<close>

lemmas task_defs = failing_task_def task_p_def task_q_def task_B_def make_task_def

lemmas worker_defs = run_task_def publish_def alloc_slot_def store_result_def call_hook_def
  next_slot_def pool_def pools_def target_pool_def dependency_name_def clear_pool_def

subsection \<open>The publish step, field by field\<close>

lemma publish_slot: "fst (publish t r s) = next_slot s (target_pool t)"
  by (simp add: publish_def alloc_slot_def next_slot_def Let_def)

lemma publish_counters:
  "m_pool_ntIDs (snd (publish t r s)) =
     (m_pool_ntIDs s)(target_pool t \<mapsto> next_slot s (target_pool t) + 1)"
  by (simp add: publish_def alloc_slot_def store_result_def next_slot_def Let_def)

lemma publish_pools:
  "m_pools (snd (publish t r s)) =
     (m_pools s)(target_pool t \<mapsto> (pool s (target_pool t))(next_slot s (target_pool t) \<mapsto> r))"
  by (simp add: publish_def alloc_slot_def store_result_def next_slot_def pool_def Let_def)

lemma publish_done: "m_done (snd (publish t r s)) = m_done s @ [name t]"
  by (simp add: publish_def alloc_slot_def store_result_def Let_def)

lemma publish_hook_calls: "m_hook_calls (snd (publish t r s)) = m_hook_calls s"
  by (simp add: publish_def alloc_slot_def store_result_def Let_def)

lemma target_pool_func_update [simp]: "target_pool (t\<lparr>func := g\<rparr>) = target_pool t"
  by (simp add: target_pool_def split: option.split)

text \<open>
  The store after a task has run depends on the task's name, its target pool and the
  result string only: not on the error code, the worker or the task's id.
\<close>

lemma run_task_slot: "fst (run_task wid t s) = next_slot s (target_pool t)"
  by (simp add: run_task_def Let_def publish_slot next_slot_def call_hook_def)

lemma run_task_done: "m_done (snd (run_task wid t s)) = m_done s @ [name t]"
  by (simp add: run_task_def Let_def publish_done call_hook_def)

lemma run_task_pools:
  "m_pools (snd (run_task wid t s)) =
     (m_pools s)(target_pool t \<mapsto>
        (pool s (target_pool t))(next_slot s (target_pool t) \<mapsto> ret (func t ())))"
  by (simp add: run_task_def Let_def publish_pools call_hook_def next_slot_def pool_def)

lemma run_task_counters:
  "m_pool_ntIDs (snd (run_task wid t s)) =
     (m_pool_ntIDs s)(target_pool t \<mapsto> next_slot s (target_pool t) + 1)"
  by (simp add: run_task_def Let_def publish_counters call_hook_def next_slot_def)

lemma run_task_next_slot:
  "next_slot (snd (run_task wid t s)) p =
     (if p = target_pool t then next_slot s p + 1 else next_slot s p)"
  by (simp add: next_slot_def run_task_counters)

lemma run_task_hook_calls:
  "m_hook_calls (snd (run_task wid t s)) =
     m_hook_calls s @ [Task_start t wid,
       if err (func t ()) \<noteq> 0 then Task_fail t wid (err (func t ())) else Task_stop t wid]"
  by (simp add: run_task_def Let_def publish_hook_calls call_hook_def)

lemma clear_pool_next_slot [simp]: "next_slot (clear_pool q s) p = next_slot s p"
  by (simp add: clear_pool_def next_slot_def split: option.split)

subsection \<open>A failed task\<close>

text \<open>
  C4. For every task whose function returns a non-zero error code, the worker calls the
  task-start hook and then the task-fail hook with the task, the worker id and that error
  code, and makes no other hook call (so not the task-stop hook); the task's name is
  appended to the done set and its result string is stored at the next slot of its target
  pool. The slot, the done set, the pools and the slot counters are those that the same
  task leaves when its function returns the same string with error code 0.
\<close>

theorem failed_task_fail_hook_and_published:
  assumes "err (func t ()) \<noteq> 0"
  shows "m_hook_calls (snd (run_task wid t s)) =
           m_hook_calls s @ [Task_start t wid, Task_fail t wid (err (func t ()))]
       \<and> m_done (snd (run_task wid t s)) = m_done s @ [name t]
       \<and> fst (run_task wid t s) = next_slot s (target_pool t)
       \<and> pools (snd (run_task wid t s)) =
           (pools s)(target_pool t \<mapsto>
              (pool s (target_pool t))(next_slot s (target_pool t) \<mapsto> ret (func t ())))
       \<and> fst (run_task wid t s) =
           fst (run_task wid (t\<lparr>func := \<lambda>u. \<lparr>ret = ret (func t ()), err = 0\<rparr>\<rparr>) s)
       \<and> m_done (snd (run_task wid t s)) =
           m_done (snd (run_task wid (t\<lparr>func := \<lambda>u. \<lparr>ret = ret (func t ()), err = 0\<rparr>\<rparr>) s))
       \<and> pools (snd (run_task wid t s)) =
           pools (snd (run_task wid (t\<lparr>func := \<lambda>u. \<lparr>ret = ret (func t ()), err = 0\<rparr>\<rparr>) s))
       \<and> m_pool_ntIDs (snd (run_task wid t s)) =
           m_pool_ntIDs (snd (run_task wid (t\<lparr>func := \<lambda>u. \<lparr>ret = ret (func t ()), err = 0\<rparr>\<rparr>) s))"
  using assms
  by (simp add: run_task_hook_calls run_task_done run_task_slot run_task_pools
      run_task_counters pools_def)

text \<open>
  C4 at the task that fails with error code 7, run by worker 2 on a fresh manager.
\<close>

theorem failed_task_fail_hook_and_published_witness:
  "err (func failing_task ()) \<noteq> 0
   \<and> m_hook_calls (snd (run_task 2 failing_task task_manager_init)) =
       [Task_start failing_task 2, Task_fail failing_task 2 7]
   \<and> m_done (snd (run_task 2 failing_task task_manager_init)) = [''A'']
   \<and> fst (run_task 2 failing_task task_manager_init) = 0
   \<and> pool (snd (run_task 2 failing_task task_manager_init)) ''A'' 0 = Some ''partial''"
proof -
  have h: "err (func failing_task ()) \<noteq> 0"
    by (simp add: task_defs)
  have p: "pools (snd (run_task 2 failing_task task_manager_init)) ''A'' = Some [0 \<mapsto> ''partial'']"
    using failed_task_fail_hook_and_published [OF h, of 2 task_manager_init]
    by (simp add: task_defs task_manager_init_def pool_def pools_def next_slot_def
        target_pool_def)
  show ?thesis
    using h p failed_task_fail_hook_and_published [OF h, of 2 task_manager_init]
    by (simp add: task_defs task_manager_init_def pool_def pools_def next_slot_def
        target_pool_def)
qed

subsection \<open>Clearing a pool\<close>

text \<open>
  C5. For every store state and pool name \<open>p\<close>, after \<^verbatim>\<open>clear_pool(p)\<close> the pool \<open>p\<close> is
  the empty mapping, every other pool is unchanged, every slot-id counter is unchanged
  (that of \<open>p\<close> included: it is not reset), and clearing an unknown pool name changes
  nothing.
\<close>

theorem clear_pool_frame:
  "pool (clear_pool p s) p = Map.empty
   \<and> (\<forall>q. q \<noteq> p \<longrightarrow> pools (clear_pool p s) q = pools s q)
   \<and> m_pool_ntIDs (clear_pool p s) = m_pool_ntIDs s
   \<and> (pools s p = None \<longrightarrow> clear_pool p s = s)"
  by (simp add: clear_pool_def pool_def pools_def split: option.split)

lemma two_pools_pools:
  "m_pools two_pools = [''p'' \<mapsto> [0 \<mapsto> ''x''], ''q'' \<mapsto> [0 \<mapsto> ''y'']]"
  by (simp add: two_pools_def task_defs worker_defs task_manager_init_def Let_def)

lemma two_pools_counters:
  "m_pool_ntIDs two_pools = [''p'' \<mapsto> 1, ''q'' \<mapsto> 1]"
  by (simp add: two_pools_def task_defs worker_defs task_manager_init_def Let_def)

text \<open>
  C5 at the store with one result in each of the pools \<open>p\<close> and \<open>q\<close>, clearing \<open>p\<close> and
  clearing the unknown pool \<open>r\<close>.
\<close>

theorem clear_pool_frame_witness:
  "pool (clear_pool ''p'' two_pools) ''p'' = Map.empty
   \<and> pools (clear_pool ''p'' two_pools) ''q'' = Some [0 \<mapsto> ''y'']
   \<and> m_pool_ntIDs (clear_pool ''p'' two_pools) ''p'' = Some 1
   \<and> m_pool_ntIDs (clear_pool ''p'' two_pools) ''q'' = Some 1
   \<and> pools two_pools ''r'' = None
   \<and> clear_pool ''r'' two_pools = two_pools"
  using clear_pool_frame [of "''p''" two_pools] clear_pool_frame [of "''r''" two_pools]
  by (simp add: two_pools_pools two_pools_counters pools_def)

subsection \<open>Slot ids\<close>

text \<open>
  The slot that \<open>run_task\<close> reports is the key of the target pool under which the result
  string then sits; other pools are left as they were.
\<close>

lemma run_task_stores:
  "pool (snd (run_task wid t s)) (target_pool t) (fst (run_task wid t s)) = Some (ret (func t ()))"
  by (simp add: pool_def [of "snd (run_task wid t s)"] run_task_pools run_task_slot)

lemma run_task_pool:
  "pool (snd (run_task wid t s)) p =
     (if p = target_pool t then (pool s p)(next_slot s p \<mapsto> ret (func t ())) else pool s p)"
  by (simp add: pool_def [of "snd (run_task wid t s)"] run_task_pools) (simp add: pool_def)

lemma clear_pool_pool:
  "pool (clear_pool q s) p = (if p = q then Map.empty else pool s p)"
  by (auto simp add: clear_pool_def pool_def split: option.split)

lemma cleared_none: "Clear_pool p \<notin> set ops \<Longrightarrow> cleared p ops = 0"
  by (induction ops rule: cleared.induct) auto

lemma cleared_le: "cleared p ops \<le> length (deposited p ops)"
  by (induction ops rule: cleared.induct) auto

lemma slots_in_run_ops:
  "slots_in p (fst (run_ops ops s)) =
     map (\<lambda>i. next_slot s p + of_nat i) [0 ..< length (deposited p ops)]"
proof (induction ops arbitrary: s)
  case Nil
  show ?case by (simp add: slots_in_def)
next
  case (Cons a ops)
  show ?case
  proof (cases a)
    case (Run_task wid t)
    obtain k s1 where r: "run_task wid t s = (k, s1)"
      by (cases "run_task wid t s")
    have k: "k = next_slot s (target_pool t)"
      using run_task_slot [of wid t s] r by simp
    have n: "next_slot s1 p = (if p = target_pool t then next_slot s p + 1 else next_slot s p)"
      using run_task_next_slot [of wid t s p] r by simp
    obtain ks s2 where o: "run_ops ops s1 = (ks, s2)"
      by (cases "run_ops ops s1")
    have ih: "slots_in p ks =
        map (\<lambda>i. next_slot s1 p + of_nat i) [0 ..< length (deposited p ops)]"
      using Cons.IH [of s1] o by simp
    show ?thesis
    proof (cases "target_pool t = p")
      case True
      then show ?thesis
        using Run_task r o ih n k
        by (simp add: slots_in_def upt_rec [of 0] map_Suc_upt [symmetric] add.assoc del: upt_Suc)
    next
      case False
      then show ?thesis
        using Run_task r o ih n k
        by (simp add: slots_in_def)
    qed
  next
    case (Clear_pool q)
    then show ?thesis
      using Cons.IH [of "clear_pool q s"] by simp
  qed
qed

lemma next_slot_run_ops:
  "next_slot (snd (run_ops ops s)) p = next_slot s p + of_nat (length (deposited p ops))"
proof (induction ops arbitrary: s)
  case Nil
  show ?case by simp
next
  case (Cons a ops)
  show ?case
  proof (cases a)
    case (Run_task wid t)
    obtain k s1 where r: "run_task wid t s = (k, s1)"
      by (cases "run_task wid t s")
    have n: "next_slot s1 p = (if p = target_pool t then next_slot s p + 1 else next_slot s p)"
      using run_task_next_slot [of wid t s p] r by simp
    obtain ks s2 where o: "run_ops ops s1 = (ks, s2)"
      by (cases "run_ops ops s1")
    show ?thesis
      using Run_task r o n Cons.IH [of s1] by (simp add: add.assoc)
  next
    case (Clear_pool q)
    then show ?thesis
      using Cons.IH [of "clear_pool q s"] by simp
  qed
qed

text \<open>
  The content of a pool \<open>p\<close> after a history, from any state, as long as at most
  \<open>2\<^sup>3\<^sup>2\<close> results go into \<open>p\<close>: counting keys from the pool's next slot, the
  \<open>i\<close>-th key holds the \<open>i\<close>-th result deposited into \<open>p\<close>, unless that result was
  deposited before the last \<^verbatim>\<open>clear_pool(p)\<close>; every other key is empty once the pool
  has been cleared and holds what it held before otherwise.
\<close>

lemma pool_run_ops:
  assumes "length (deposited p ops) \<le> 2 ^ 32"
  shows "pool (snd (run_ops ops s)) p k =
     (if cleared p ops \<le> unat (k - next_slot s p)
         \<and> unat (k - next_slot s p) < length (deposited p ops)
      then Some (deposited p ops ! unat (k - next_slot s p))
      else if Clear_pool p \<in> set ops then None else pool s p k)"
  using assms
proof (induction ops arbitrary: s)
  case Nil
  show ?case by simp
next
  case (Cons a ops)
  show ?case
  proof (cases a)
    case (Clear_pool q)
    have len: "length (deposited p ops) \<le> 2 ^ 32"
      using Cons.prems Clear_pool by simp
    show ?thesis
      using Clear_pool Cons.IH [OF len, of "clear_pool q s"]
      by (auto simp add: clear_pool_pool)
  next
    case (Run_task wid t)
    obtain j s1 where r: "run_task wid t s = (j, s1)"
      by (cases "run_task wid t s")
    obtain ks s2 where o: "run_ops ops s1 = (ks, s2)"
      by (cases "run_ops ops s1")
    have fin: "snd (run_ops (a # ops) s) = snd (run_ops ops s1)"
      using Run_task r o by simp
    have n1: "next_slot s1 p = (if p = target_pool t then next_slot s p + 1 else next_slot s p)"
      using run_task_next_slot [of wid t s p] r by simp
    have p1: "pool s1 p =
        (if p = target_pool t then (pool s p)(next_slot s p \<mapsto> ret (func t ())) else pool s p)"
      using run_task_pool [of wid t s p] r by simp
    show ?thesis
    proof (cases "target_pool t = p")
      case False
      have len: "length (deposited p ops) \<le> 2 ^ 32"
        using Cons.prems Run_task False by simp
      from False have ne: "p \<noteq> target_pool t"
        by auto
      have same: "deposited p (a # ops) = deposited p ops" "cleared p (a # ops) = cleared p ops"
        "Clear_pool p \<in> set (a # ops) \<longleftrightarrow> Clear_pool p \<in> set ops"
        using Run_task False by simp_all
      show ?thesis
        unfolding fin same
        using Cons.IH [OF len, of s1] ne
        by (simp add: n1 p1)
    next
      case True
      define d where "d = k - next_slot s p"
      have len: "Suc (length (deposited p ops)) \<le> 2 ^ 32"
        using Cons.prems Run_task True by simp
      then have len': "length (deposited p ops) \<le> 2 ^ 32"
        by simp
      have shift: "k - next_slot s1 p = d - 1"
        using True by (simp add: n1 d_def)
      have dep: "deposited p (a # ops) = ret (func t ()) # deposited p ops"
        using Run_task True by simp
      have clr: "cleared p (a # ops) =
          (if Clear_pool p \<in> set ops then Suc (cleared p ops) else 0)"
        using Run_task True by (simp add: cleared_none)
      have mem: "Clear_pool p \<in> set (a # ops) \<longleftrightarrow> Clear_pool p \<in> set ops"
        using Run_task by simp
      have ih: "pool (snd (run_ops ops s1)) p k =
          (if cleared p ops \<le> unat (d - 1) \<and> unat (d - 1) < length (deposited p ops)
           then Some (deposited p ops ! unat (d - 1))
           else if Clear_pool p \<in> set ops then None else pool s1 p k)"
        using Cons.IH [OF len', of s1] by (simp add: shift)
      show ?thesis
      proof (cases "d = 0")
        case True
        then have k: "k = next_slot s p"
          by (simp add: d_def)
        have big: "\<not> unat (d - 1) < length (deposited p ops)"
          using len True by (simp add: unsigned_minus_1_eq_mask mask_eq_exp_minus_1)
        show ?thesis
          unfolding fin ih dep clr mem d_def [symmetric]
          using True big k \<open>target_pool t = p\<close>
          by (simp add: p1)
      next
        case False
        then have k: "k \<noteq> next_slot s p"
          by (simp add: d_def)
        have pos: "0 < unat d"
          using False by (simp add: unat_gt_0)
        have pred: "unat (d - 1) = unat d - 1"
          using False by (simp add: unat_minus_one)
        obtain m where m: "unat d = Suc m"
          using pos by (cases "unat d") auto
        show ?thesis
          unfolding fin ih dep clr mem d_def [symmetric]
          using k \<open>target_pool t = p\<close>
          by (simp add: p1 pred m cleared_none)
      qed
    qed
  qed
qed

text \<open>Reading a slot id as the \<^verbatim>\<open>int\<close> it is, below \<open>2\<^sup>3\<^sup>1\<close>.\<close>

lemma sint_unat:
  fixes k :: c_int
  assumes "unat k < 2 ^ 31"
  shows "sint k = int (unat k)"
proof -
  have "unat k < 2147483648"
    using assms by simp
  then have "int (unat k) < 2147483648"
    by linarith
  then have "uint k < 2147483648"
    by simp
  then have h: "uint k < 2147483648"
    by simp
  have "signed_take_bit 31 (uint k) = uint k"
  proof (rule signed_take_bit_int_eq_self)
    show "- (2 ^ 31) \<le> uint k"
      by (rule order_trans [of _ 0]) simp_all
    show "uint k < 2 ^ 31"
      using h by simp
  qed
  then have "sint k = uint k"
    using sint_uint [of k] by simp
  then show ?thesis
    by simp
qed

lemma unat_sint:
  fixes k :: c_int
  assumes "0 \<le> sint k"
  shows "unat k < 2 ^ 31 \<and> nat (sint k) = unat k"
proof -
  have lt: "sint k < 2147483648"
    using sint_lt [of k] by simp
  have "uint k = take_bit 32 (sint k)"
    using uint_sint [of k] by simp
  also have "\<dots> = sint k"
    using assms lt by (simp add: take_bit_int_eq_self)
  finally have e: "uint k = sint k" .
  have "nat (uint k) = unat k"
    by simp
  then have n: "nat (sint k) = unat k"
    using e by simp
  have "nat (sint k) < 2147483648"
    using lt assms by linarith
  then show ?thesis
    using n by simp
qed

lemma sint_of_nat_small:
  assumes "n < 2 ^ 31"
  shows "sint (word_of_nat n :: c_int) = int n"
  using assms by (simp add: signed_of_nat signed_take_bit_int_eq_self)

lemma deposited_append: "deposited p (xs @ ys) = deposited p xs @ deposited p ys"
  by (induction xs rule: deposited.induct) auto

lemma deposited_replicate:
  "deposited p (replicate n (Run_task wid t)) =
     (if target_pool t = p then replicate n (ret (func t ())) else [])"
  by (induction n) auto

lemma history_deposited: "deposited ''p'' history = [''x'', ''z'']"
  by (simp add: history_def task_defs target_pool_def)

lemma history_cleared: "cleared ''p'' history = 1"
  by (simp add: history_def task_defs target_pool_def)

lemma long_history_deposited:
  "deposited ''p'' long_history = replicate 2147483648 ''x'' @ [''z'']"
  by (simp add: long_history_def deposited_append deposited_replicate task_defs target_pool_def)

lemma long_history_cleared: "Clear_pool ''p'' \<notin> set long_history"
  by (simp add: long_history_def)

text \<open>
  C6. Claim: within every pool, slot ids start at 0 for a freshly created pool and grow
  by exactly 1 per result deposited into that pool, so no two results in one pool ever
  share a slot id. Slot ids are \<^verbatim>\<open>int\<close>: after \<open>2\<^sup>3\<^sup>1\<close> results of \<open>task_p\<close> the
  pool \<open>p\<close> holds the last of them under the slot id \<open>2\<^sup>3\<^sup>1 - 1\<close>, and the next
  result, that of \<open>task_B\<close>, sits under the slot id \<open>- 2\<^sup>3\<^sup>1\<close>, which is not the
  previous slot id plus 1.
\<close>

theorem slot_ids_wrap_at_int_max:
  "length (deposited ''p'' long_history) = 2147483649
   \<and> pool (snd (run_ops long_history task_manager_init)) ''p'' 2147483647 = Some ''x''
   \<and> pool (snd (run_ops long_history task_manager_init)) ''p'' (- 2147483648) = Some ''z''
   \<and> sint (- 2147483648 :: c_int) \<noteq> sint (2147483647 :: c_int) + 1"
proof -
  have n: "length (deposited ''p'' long_history) = 2147483649"
    by (simp add: long_history_deposited)
  have le: "length (deposited ''p'' long_history) \<le> 2 ^ 32"
    by (simp add: n)
  have z: "next_slot task_manager_init ''p'' = 0"
    by (simp add: next_slot_def task_manager_init_def)
  have c: "cleared ''p'' long_history = 0"
    using long_history_cleared by (rule cleared_none)
  have a: "pool (snd (run_ops long_history task_manager_init)) ''p'' 2147483647 = Some ''x''"
    using pool_run_ops [OF le, of task_manager_init 2147483647]
    by (simp add: z c n) (simp add: long_history_deposited nth_append)
  have b: "pool (snd (run_ops long_history task_manager_init)) ''p'' (- 2147483648) = Some ''z''"
    using pool_run_ops [OF le, of task_manager_init "- 2147483648"]
    by (simp add: z c n) (simp add: long_history_deposited nth_append)
  show ?thesis
    using n a b by simp
qed

text \<open>
  C6, as the code has it: within every pool \<open>p\<close> that is fresh (no slot counter and no
  entry yet), and for every history of task runs and pool clearings that deposits fewer
  than \<open>2\<^sup>3\<^sup>1\<close> results into \<open>p\<close>: the slot ids given to those results are
  \<open>0, 1, ..., n - 1\<close> in order (they start at 0 and grow by exactly 1 per deposit into
  \<open>p\<close>, whatever the tasks' ids and whatever happens to other pools); the pool maps the
  slot id \<open>i\<close> to the \<open>i\<close>-th result deposited into \<open>p\<close>, for every result deposited
  since the last \<^verbatim>\<open>clear_pool(p)\<close>, and holds nothing else, so no two results of the
  pool share a slot id; and the pool's next slot id is \<open>n\<close>.
\<close>

theorem slot_ids_are_pool_keys:
  assumes "m_pool_ntIDs s p = None" and "pool s p = Map.empty"
    and "length (deposited p ops) < 2 ^ 31"
  shows "map sint (slots_in p (fst (run_ops ops s))) = map int [0 ..< length (deposited p ops)]
       \<and> pool (snd (run_ops ops s)) p k =
           (if 0 \<le> sint k \<and> cleared p ops \<le> nat (sint k)
               \<and> nat (sint k) < length (deposited p ops)
            then Some (deposited p ops ! nat (sint k)) else None)
       \<and> sint (next_slot (snd (run_ops ops s)) p) = int (length (deposited p ops))"
proof -
  let ?n = "length (deposited p ops)"
  have z: "next_slot s p = 0"
    using assms(1) by (simp add: next_slot_def)
  have le: "?n \<le> 2 ^ 32"
    using assms(3) by simp
  have "map sint (slots_in p (fst (run_ops ops s))) = map (\<lambda>i. sint (word_of_nat i :: c_int)) [0 ..< ?n]"
    by (simp add: slots_in_run_ops z comp_def)
  also have "\<dots> = map int [0 ..< ?n]"
    using assms(3) by (simp add: sint_of_nat_small)
  finally have a: "map sint (slots_in p (fst (run_ops ops s))) = map int [0 ..< ?n]" .
  have u: "pool (snd (run_ops ops s)) p k =
      (if cleared p ops \<le> unat k \<and> unat k < ?n then Some (deposited p ops ! unat k) else None)"
    using pool_run_ops [OF le, of s k] by (simp add: z assms(2))
  have b: "pool (snd (run_ops ops s)) p k =
      (if 0 \<le> sint k \<and> cleared p ops \<le> nat (sint k) \<and> nat (sint k) < ?n
       then Some (deposited p ops ! nat (sint k)) else None)"
  proof (cases "0 \<le> sint k")
    case True
    then show ?thesis
      using unat_sint [OF True] by (simp add: u)
  next
    case False
    have "\<not> unat k < ?n"
    proof
      assume "unat k < ?n"
      then have "unat k < 2 ^ 31"
        using assms(3) by simp
      then have "sint k = int (unat k)"
        by (rule sint_unat)
      then show False
        using False by simp
    qed
    then show ?thesis
      using False by (simp add: u)
  qed
  have c: "sint (next_slot (snd (run_ops ops s)) p) = int ?n"
    using assms(3) by (simp add: next_slot_run_ops z sint_of_nat_small)
  show ?thesis
    using a b c by simp
qed

text \<open>
  C6 at the history that deposits \<open>x\<close> into \<open>p\<close>, \<open>y\<close> into \<open>q\<close>, clears \<open>p\<close> and
  deposits \<open>z\<close> into \<open>p\<close> (the result of a task with id 5), from a fresh manager: the
  slot ids are 0 and 1, and the pool holds \<open>z\<close> under 1 and nothing under 0 or 2.
\<close>

theorem slot_ids_are_pool_keys_witness:
  "m_pool_ntIDs task_manager_init ''p'' = None
   \<and> pool task_manager_init ''p'' = Map.empty
   \<and> length (deposited ''p'' history) < 2 ^ 31
   \<and> map sint (slots_in ''p'' (fst (run_ops history task_manager_init))) = [0, 1]
   \<and> pool (snd (run_ops history task_manager_init)) ''p'' 0 = None
   \<and> pool (snd (run_ops history task_manager_init)) ''p'' 1 = Some ''z''
   \<and> pool (snd (run_ops history task_manager_init)) ''p'' 2 = None
   \<and> sint (next_slot (snd (run_ops history task_manager_init)) ''p'') = 2"
proof -
  have f: "m_pool_ntIDs task_manager_init ''p'' = None"
    by (simp add: task_manager_init_def)
  have e: "pool task_manager_init ''p'' = Map.empty"
    by (simp add: task_manager_init_def pool_def)
  have b: "length (deposited ''p'' history) < 2 ^ 31"
    by (simp add: history_deposited)
  show ?thesis
    using f e b slot_ids_are_pool_keys [OF f e b, of 0] slot_ids_are_pool_keys [OF f e b, of 1] slot_ids_are_pool_keys [OF f e b, of 2]
    by (simp add: history_deposited history_cleared upt_rec)
qed

section \<open>Facts about dequeuing\<close>

text \<open>The two branches for a front task that is not eligible.\<close>

lemma pop_queue_not_yet:
  assumes "m_queue s = t # q" and "\<not> eligible s t" and "get s IN_ORDER"
  shows "pop_queue s = Some (Not_yet, s)"
  using assms by (subst pop_queue.simps) simp

lemma pop_queue_rotate:
  assumes "m_queue s = t # q" and "\<not> eligible s t" and "\<not> get s IN_ORDER"
  shows "pop_queue s = pop_queue (s\<lparr>m_queue := q @ [t]\<rparr>)"
  using assms by (subst pop_queue.simps) simp

text \<open>
  C7. For every non-empty queue, if the dependency name of the front task is empty or
  appears in the done set, the dequeue operation removes exactly that task from the queue
  and returns it, under every value \<open>w\<close> of the settings (so whatever \<open>IN_ORDER\<close> and
  \<open>KILL_ON_EMPTY\<close> are); in particular a front task with an empty dependency is returned
  under every policy.
\<close>

theorem pop_queue_front_eligible:
  assumes "m_queue s = t # q"
    and "dependency_name t = [] \<or> dependency_name t \<in> set (m_done s)"
  shows "pop_queue (s\<lparr>m_settings := w\<rparr>) =
           Some (Popped t, s\<lparr>m_settings := w, m_queue := q\<rparr>)"
  using assms by (subst pop_queue.simps) (simp add: eligible_def)

text \<open>
  C7 at the manager whose queue holds \<open>B\<close> (which runs after \<open>p\<close>) and then \<open>q\<close>, with
  \<open>p\<close> done, under no policy flag and under both; and at a queue whose front task has
  an empty dependency and nothing is done.
\<close>

theorem pop_queue_front_eligible_witness:
  "m_queue B_at_front = task_B # [task_q]
   \<and> dependency_name task_B \<in> set (m_done B_at_front)
   \<and> pop_queue (B_at_front\<lparr>m_settings := 0\<rparr>) =
       Some (Popped task_B, B_at_front\<lparr>m_settings := 0, m_queue := [task_q]\<rparr>)
   \<and> pop_queue (B_at_front\<lparr>m_settings := 3\<rparr>) =
       Some (Popped task_B, B_at_front\<lparr>m_settings := 3, m_queue := [task_q]\<rparr>)
   \<and> dependency_name task_q = []
   \<and> pop_queue (task_manager_init\<lparr>m_queue := [task_q, task_B], m_settings := 2\<rparr>) =
       Some (Popped task_q, task_manager_init\<lparr>m_queue := [task_B], m_settings := 2\<rparr>)"
proof -
  have q: "m_queue B_at_front = task_B # [task_q]"
    by (simp add: B_at_front_def)
  have d: "dependency_name task_B \<in> set (m_done B_at_front)"
    by (simp add: B_at_front_def task_defs dependency_name_def)
  have q': "m_queue (task_manager_init\<lparr>m_queue := [task_q, task_B]\<rparr>) = task_q # [task_B]"
    by simp
  have d': "dependency_name task_q = []"
    by (simp add: task_defs dependency_name_def)
  show ?thesis
    using q d d'
      pop_queue_front_eligible [OF q disjI2 [OF d], of 0]
      pop_queue_front_eligible [OF q disjI2 [OF d], of 3]
      pop_queue_front_eligible [OF q' disjI1 [OF d'], of 2]
    by simp
qed

end
